theory Spec2Isabelle
  imports Main "HOL-Library.Multiset"
begin

section \<open>Data model (types.ts)\<close>

text \<open>
  The interfaces of \<^verbatim>\<open>types.ts\<close> as records. An optional field
  (\<^verbatim>\<open>receiver_id?: string\<close>) is an \<open>option\<close>: \<open>None\<close> stands for both
  \<^verbatim>\<open>undefined\<close> and the \<^verbatim>\<open>null\<close> that the store delivers for an empty column.
  The field \<^verbatim>\<open>id\<close> is suffixed with the record it belongs to, since \<open>id\<close> is the
  identity function of HOL.
\<close>

record User =
  id_user :: string
  username :: string
  last_seen :: "string option"

text \<open>
  \<^verbatim>\<open>sendMessage\<close> builds the object \<^verbatim>\<open>messageData\<close> with the fields a client
  chooses; the store completes it to a \<^verbatim>\<open>Message\<close> row with \<^verbatim>\<open>id\<close> and
  \<^verbatim>\<open>created_at\<close>, and a query with \<^verbatim>\<open>sender:users(*)\<close> fills \<^verbatim>\<open>sender\<close>.
\<close>

record MessageData =
  sender_id :: string
  receiver_id :: "string option"
  group_id :: "string option"
  content :: string

record Message = MessageData +
  id_msg :: string
  created_at :: string
  sender :: "User option"

datatype ChatType = user | group

record ActiveChat =
  type_chat :: ChatType
  id_chat :: string

type_synonym UnreadCounts = "string \<rightharpoonup> nat"

section \<open>JavaScript operators used by the handlers\<close>

text \<open>
  \<^verbatim>\<open>a || b\<close> yields \<open>a\<close> when \<open>a\<close> is truthy and \<open>b\<close> otherwise. An optional
  string is truthy when it is neither \<^verbatim>\<open>undefined\<close>/\<^verbatim>\<open>null\<close> nor the empty
  string. This is the test the code applies to \<^verbatim>\<open>msg.group_id\<close>; for an id issued
  by the store (never empty) it is the same as the field being present.
\<close>

definition truthy :: "string option \<Rightarrow> bool" where
  "truthy v = (case v of None \<Rightarrow> False | Some s \<Rightarrow> s \<noteq> [])"

text \<open>
  \<^verbatim>\<open>prev[chatId] || 0\<close> on a \<^verbatim>\<open>Record<string, number>\<close>: a missing entry reads as
  \<open>0\<close>. The counts are the non-negative integers that the two writers of the map
  produce (\<open>0\<close> and \<open>+ 1\<close>), on which the addition of JavaScript numbers is exact
  below \<open>2^53\<close>; they are modelled as \<open>nat\<close>.
\<close>

definition unread :: "UnreadCounts \<Rightarrow> string \<Rightarrow> nat" where
  "unread prev k = (case prev k of None \<Rightarrow> 0 | Some n \<Rightarrow> n)"

text \<open>
  \<^verbatim>\<open>String.prototype.trim\<close> removes, at both ends, every code point of the
  ECMAScript productions WhiteSpace and LineTerminator: U+0009 to U+000D, U+0020,
  U+00A0, U+1680, U+2000 to U+200A, U+2028, U+2029, U+202F, U+205F, U+3000 and
  U+FEFF. A \<open>string\<close> here is the UTF-8 encoding of the JavaScript string, so each
  of these code points is the sequence of one to three bytes listed below. UTF-8 is
  self-synchronising: a well-formed string ends with one of these sequences exactly
  when its last code point is the white space in question.
\<close>

definition WhiteSpace :: "string list" where
  "WhiteSpace =
     [[CHR 0x09], [CHR 0x0A], [CHR 0x0B], [CHR 0x0C], [CHR 0x0D], [CHR 0x20],
      [CHR 0xC2, CHR 0xA0],
      [CHR 0xE1, CHR 0x9A, CHR 0x80],
      [CHR 0xE2, CHR 0x80, CHR 0x80], [CHR 0xE2, CHR 0x80, CHR 0x81],
      [CHR 0xE2, CHR 0x80, CHR 0x82], [CHR 0xE2, CHR 0x80, CHR 0x83],
      [CHR 0xE2, CHR 0x80, CHR 0x84], [CHR 0xE2, CHR 0x80, CHR 0x85],
      [CHR 0xE2, CHR 0x80, CHR 0x86], [CHR 0xE2, CHR 0x80, CHR 0x87],
      [CHR 0xE2, CHR 0x80, CHR 0x88], [CHR 0xE2, CHR 0x80, CHR 0x89],
      [CHR 0xE2, CHR 0x80, CHR 0x8A],
      [CHR 0xE2, CHR 0x80, CHR 0xA8], [CHR 0xE2, CHR 0x80, CHR 0xA9],
      [CHR 0xE2, CHR 0x80, CHR 0xAF],
      [CHR 0xE2, CHR 0x81, CHR 0x9F],
      [CHR 0xE3, CHR 0x80, CHR 0x80],
      [CHR 0xEF, CHR 0xBB, CHR 0xBF]]"

text \<open>\<open>strip ws s\<close> removes from the front of \<open>s\<close> every leading sequence of \<open>ws\<close>.\<close>

function strip :: "string list \<Rightarrow> string \<Rightarrow> string" where
  "strip ws s =
     (case find (\<lambda>w. w \<noteq> [] \<and> take (length w) s = w) ws of
        None \<Rightarrow> s
      | Some w \<Rightarrow> strip ws (drop (length w) s))"
  by pat_completeness auto

termination
proof (relation "measure (\<lambda>(ws, s). length s)")
  show "wf (measure (\<lambda>(ws, s). length s))" by simp
next
  fix ws :: "string list" and s w :: string
  assume "find (\<lambda>w. w \<noteq> [] \<and> take (length w) s = w) ws = Some w"
  then have w: "w \<noteq> []" and t: "take (length w) s = w"
    by (auto simp add: find_Some_iff)
  from w t have "s \<noteq> []" by auto
  with w show "((ws, drop (length w) s), (ws, s)) \<in> measure (\<lambda>(ws, s). length s)"
    by simp
qed

definition trim :: "string \<Rightarrow> string" where
  "trim s = rev (strip (map rev WhiteSpace) (rev (strip WhiteSpace s)))"

section \<open>Unread tracking (App, the first two effects)\<close>

text \<open>
  The effect on \<^verbatim>\<open>[activeChat]\<close>:
  \<^verbatim>\<open>if (activeChat) setUnreadCounts(prev => ({...prev, [activeChat.id]: 0}))\<close>.
\<close>

definition activeChat_effect :: "ActiveChat option \<Rightarrow> UnreadCounts \<Rightarrow> UnreadCounts" where
  "activeChat_effect activeChat prev =
     (case activeChat of
        None \<Rightarrow> prev
      | Some ac \<Rightarrow> prev(id_chat ac \<mapsto> 0))"

text \<open>\<^verbatim>\<open>const chatId = msg.group_id || msg.sender_id\<close>\<close>

definition chatId :: "'a MessageData_scheme \<Rightarrow> string" where
  "chatId msg =
     (case group_id msg of
        None \<Rightarrow> sender_id msg
      | Some g \<Rightarrow> if g \<noteq> [] then g else sender_id msg)"

text \<open>\<^verbatim>\<open>const isRelevant = msg.group_id || msg.receiver_id === currentUser.id\<close>\<close>

definition isRelevant :: "'a MessageData_scheme \<Rightarrow> User \<Rightarrow> bool" where
  "isRelevant msg currentUser =
     (truthy (group_id msg) \<or> receiver_id msg = Some (id_user currentUser))"

text \<open>
  The callback of the channel \<^verbatim>\<open>global:messages\<close>, in the order of its four
  statements. The effect subscribes only when \<^verbatim>\<open>currentUser\<close> is set, so the
  callback takes a user; \<^verbatim>\<open>activeChat?.id === chatId\<close> is false when there is no
  active chat.
\<close>

definition globalMessageSub :: "User \<Rightarrow> ActiveChat option \<Rightarrow> UnreadCounts \<Rightarrow> Message \<Rightarrow> UnreadCounts" where
  "globalMessageSub currentUser activeChat prev msg =
     (if sender_id msg = id_user currentUser then prev
      else if map_option id_chat activeChat = Some (chatId msg) then prev
      else if \<not> isRelevant msg currentUser then prev
      else prev(chatId msg \<mapsto> unread prev (chatId msg) + 1))"

section \<open>Session state and the backing store\<close>

text \<open>
  The \<^verbatim>\<open>useState\<close> cells of \<^verbatim>\<open>App\<close> that the chat logic reads or writes,
  with the two things it reaches outside React: the item \<^verbatim>\<open>chat_user\<close> of
  \<^verbatim>\<open>localStorage\<close> and the texts passed to \<^verbatim>\<open>alert\<close>, in order.
\<close>

record Session =
  currentUser :: "User option"
  usernameInput :: string
  isLoggingIn :: bool
  activeChat :: "ActiveChat option"
  unreadCounts :: UnreadCounts
  messages :: "Message list"
  newMessage :: string
  chat_user :: "User option"
  alerts :: "string list"

text \<open>
  The store is the hosted database behind the \<^verbatim>\<open>supabase\<close> client, which is
  taken to be configured. A handler's calls to it are returned as a list of
  requests, and what the store answers (\<^verbatim>\<open>{ data, error }\<close>) is a parameter of
  the handler.
\<close>

datatype request =
    SelectUserByName string
  | InsertUser string
  | InsertMessage MessageData

record UserResponse =
  data :: "User option"
  error :: "string option"

section \<open>Conversation loading (App, the effect on currentUser and activeChat)\<close>

text \<open>
  The filter of \<^verbatim>\<open>fetchMessages\<close>: for a chat of type \<^verbatim>\<open>user\<close>
  \<^verbatim>\<open>or(and(sender_id.eq.U,receiver_id.eq.T),and(sender_id.eq.T,receiver_id.eq.U))\<close>
  with \<open>U\<close> the current user's id and \<open>T\<close> the active chat's id, otherwise
  \<^verbatim>\<open>eq('group_id', T)\<close>.
\<close>

definition fetch_filter :: "User \<Rightarrow> ActiveChat \<Rightarrow> 'a MessageData_scheme \<Rightarrow> bool" where
  "fetch_filter cu ac m =
     (if type_chat ac = user
      then (sender_id m = id_user cu \<and> receiver_id m = Some (id_chat ac))
         \<or> (sender_id m = id_chat ac \<and> receiver_id m = Some (id_user cu))
      else group_id m = Some (id_chat ac))"

text \<open>
  The embedded resource \<^verbatim>\<open>sender:users(*)\<close> and the point lookup
  \<^verbatim>\<open>from('users').select('*').eq('id', sender_id).single()\<close> both read the users
  table by primary key; the table is the parameter \<open>users\<close>.
\<close>

definition with_sender :: "(string \<Rightarrow> User option) \<Rightarrow> Message \<Rightarrow> Message" where
  "with_sender users m = m\<lparr>sender := users (sender_id m)\<rparr>"

text \<open>
  \<^verbatim>\<open>fetchMessages\<close> computes nothing over rows: it builds a query, sends it and
  keeps the answer. The query is the table, the selection, the filter and the
  order; the filter string is given as the term it denotes for ids without reserved
  characters.
\<close>

datatype column = col_sender_id | col_receiver_id | col_group_id

datatype cond = Eq column string | And cond cond | Or cond cond

record Query =
  q_from :: string
  q_select :: string
  q_filter :: cond
  q_order :: "string \<times> bool"

definition fetchMessages :: "User \<Rightarrow> ActiveChat \<Rightarrow> Query" where
  "fetchMessages cu ac =
     \<lparr>q_from = ''messages'',
      q_select = ''*, sender:users(*)'',
      q_filter =
        (if type_chat ac = user
         then Or (And (Eq col_sender_id (id_user cu)) (Eq col_receiver_id (id_chat ac)))
                 (And (Eq col_sender_id (id_chat ac)) (Eq col_receiver_id (id_user cu)))
         else Eq col_group_id (id_chat ac)),
      q_order = (''created_at'', True)\<rparr>"

text \<open>\<^verbatim>\<open>if (data) setMessages(data)\<close>: the answer replaces the list, as it came.\<close>

definition fetchMessages_reply :: "Message list option \<Rightarrow> Session \<Rightarrow> Session" where
  "fetchMessages_reply reply s = (case reply of None \<Rightarrow> s | Some rows \<Rightarrow> s\<lparr>messages := rows\<rparr>)"

text \<open>
  Modelled from the spec: the Message Store, which is not part of the repository.
  It is a durable append-only log of messages keyed by id: its state is the list of
  rows in the order of their insertion, and an insert is atomic, giving the row the
  id \<open>i\<close> and the time stamp \<open>t\<close> (\<^verbatim>\<open>sendMessage\<close> sends neither) and failing on
  an id already in use.
\<close>

definition store_insert ::
  "string \<Rightarrow> string \<Rightarrow> MessageData \<Rightarrow> Message list \<Rightarrow> Message list option" where
  "store_insert i t d rows =
     (if i \<in> set (map id_msg rows) then None
      else Some (rows @ [\<lparr>sender_id = sender_id d, receiver_id = receiver_id d,
                          group_id = group_id d, content = content d,
                          id_msg = i, created_at = t, sender = None\<rparr>]))"

inductive stored :: "Message list \<Rightarrow> bool" where
  stored_empty: "stored []"
| stored_insert: "stored rows \<Longrightarrow> store_insert i t d rows = Some rows' \<Longrightarrow> stored rows'"

text \<open>
  Modelled from the spec: the store's ordered range query by conversation predicate.
  A condition \<^verbatim>\<open>column.eq.value\<close> holds of a row whose column is set to that
  value. The answer to a query on the messages is the rows on which its filter holds,
  each with the embedded sender, ordered by \<^verbatim>\<open>created_at\<close> ascending, ties broken
  by insertion order. The column is a time stamp that reaches the client as a
  string; \<open>stamp\<close> is the store's reading of that string as a time.
\<close>

fun col_value :: "column \<Rightarrow> Message \<Rightarrow> string option" where
  "col_value col_sender_id m = Some (sender_id m)"
| "col_value col_receiver_id m = receiver_id m"
| "col_value col_group_id m = group_id m"

fun holds :: "cond \<Rightarrow> Message \<Rightarrow> bool" where
  "holds (Eq c v) m = (col_value c m = Some v)"
| "holds (And p q) m = (holds p m \<and> holds q m)"
| "holds (Or p q) m = (holds p m \<or> holds q m)"

definition store_select ::
  "(string \<Rightarrow> nat) \<Rightarrow> (string \<Rightarrow> User option) \<Rightarrow> Message list \<Rightarrow> Query \<Rightarrow> Message list" where
  "store_select stamp users rows q =
     sort_key (\<lambda>m. stamp (created_at m)) (map (with_sender users) (filter (holds (q_filter q)) rows))"

text \<open>
  The callback of the channel \<^verbatim>\<open>chat:<id>\<close>. For a chat of type \<^verbatim>\<open>user\<close> the
  callback filters by itself; it then looks the sender up and appends.
\<close>

definition messageSub ::
  "User \<Rightarrow> ActiveChat \<Rightarrow> (string \<Rightarrow> User option) \<Rightarrow> Message list \<Rightarrow> Message \<Rightarrow> Message list" where
  "messageSub cu ac users prev newMsg =
     (if type_chat ac = user \<and>
         \<not> ((sender_id newMsg = id_user cu \<and> receiver_id newMsg = Some (id_chat ac))
          \<or> (sender_id newMsg = id_chat ac \<and> receiver_id newMsg = Some (id_user cu)))
      then prev
      else prev @ [newMsg\<lparr>sender := users (sender_id newMsg)\<rparr>])"

section \<open>Login, logout and sending\<close>

text \<open>
  \<^verbatim>\<open>handleLogin\<close> and \<^verbatim>\<open>sendMessage\<close> are asynchronous. Each is given from
  its call to its completion: the state it leaves and the requests it has issued, in
  order. \<^verbatim>\<open>handleLogin\<close> takes the row returned by the lookup by name and the
  answer to the insert, should it issue one.
\<close>

definition handleLogin :: "User option \<Rightarrow> UserResponse \<Rightarrow> Session \<Rightarrow> Session \<times> request list" where
  "handleLogin existingUser created s =
     (if trim (usernameInput s) = [] then (s, [])
      else
        (case existingUser of
           Some eu \<Rightarrow>
             (s\<lparr>currentUser := Some eu, chat_user := Some eu, isLoggingIn := False\<rparr>,
              [SelectUserByName (trim (usernameInput s))])
         | None \<Rightarrow>
             (case error created of
                Some e \<Rightarrow>
                  (s\<lparr>isLoggingIn := False,
                     alerts := alerts s @ [''Failed to login. Make sure Supabase is configured.'']\<rparr>,
                   [SelectUserByName (trim (usernameInput s)), InsertUser (trim (usernameInput s))])
              | None \<Rightarrow>
                  (case data created of
                     Some nu \<Rightarrow>
                       (s\<lparr>currentUser := Some nu, chat_user := Some nu, isLoggingIn := False\<rparr>,
                        [SelectUserByName (trim (usernameInput s)), InsertUser (trim (usernameInput s))])
                   | None \<Rightarrow>
                       (s\<lparr>isLoggingIn := False\<rparr>,
                        [SelectUserByName (trim (usernameInput s)), InsertUser (trim (usernameInput s))])))))"

definition handleLogout :: "Session \<Rightarrow> Session" where
  "handleLogout s = s\<lparr>currentUser := None, chat_user := None, activeChat := None\<rparr>"

text \<open>
  \<^verbatim>\<open>sendMessage\<close>; \<open>err\<close> is the \<^verbatim>\<open>error\<close> of the store's answer to the insert.
\<close>

definition sendMessage :: "string option \<Rightarrow> Session \<Rightarrow> Session \<times> request list" where
  "sendMessage err s =
     (if trim (newMessage s) = [] then (s, [])
      else
        (case currentUser s of
           None \<Rightarrow> (s, [])
         | Some cu \<Rightarrow>
             (case activeChat s of
                None \<Rightarrow> (s, [])
              | Some ac \<Rightarrow>
                  (let messageData =
                         (if type_chat ac = user
                          then \<lparr>sender_id = id_user cu, receiver_id = Some (id_chat ac),
                                 group_id = None, content = trim (newMessage s)\<rparr>
                          else \<lparr>sender_id = id_user cu, receiver_id = None,
                                 group_id = Some (id_chat ac), content = trim (newMessage s)\<rparr>);
                       s1 = s\<lparr>newMessage := []\<rparr>
                   in (case err of
                         None \<Rightarrow> (s1, [InsertMessage messageData])
                       | Some e \<Rightarrow>
                           (s1\<lparr>alerts := alerts s1 @ [''Failed to send message'']\<rparr>,
                            [InsertMessage messageData]))))))"

section \<open>The running component as a transition system\<close>

text \<open>
  Besides the state cells, a mounted \<^verbatim>\<open>App\<close> has what React and the two
  subscriptions hold. A call of \<^verbatim>\<open>setActiveChat\<close> only changes the cell: the
  render that follows is committed with the new chat and the old counts, and the
  effects on \<^verbatim>\<open>[activeChat]\<close> and \<^verbatim>\<open>[currentUser, activeChat]\<close> run later.
  \<open>effect_due\<close> says that the effect on \<^verbatim>\<open>[activeChat]\<close> has not yet run for the
  present value of the cell. A subscription's callback reads \<^verbatim>\<open>currentUser\<close> and
  \<^verbatim>\<open>activeChat\<close> from the closure of the effect run that subscribed it, not from
  the cells. The callback of the chat's subscription awaits the lookup of the sender
  before it calls \<^verbatim>\<open>setMessages\<close> with an updater; \<open>awaiting\<close> holds the
  updaters of the callbacks that are at their \<^verbatim>\<open>await\<close>.
\<close>

record App =
  session :: Session
  effect_due :: bool
  globalSub_closure :: "(User \<times> ActiveChat option) option"
  messageSub_closure :: "(User \<times> ActiveChat) option"
  awaiting :: "(Message list \<Rightarrow> Message list) list"

text \<open>
  One event is one callback served from the event queue: a change of an input, a
  submitted login or message (taken with the store's answer), a logout, a click on a
  chat (also the \<^verbatim>\<open>setActiveChat\<close> at the end of \<^verbatim>\<open>createGroup\<close>), the run of
  the pending effects, a row delivered on the global or on the chat's channel, the
  return of an awaited sender lookup, and the answer to a history query. Events come
  in any order; an unsubscribed callback is not called again.
\<close>

datatype event =
    SetUsernameInput string
  | SetNewMessage string
  | Login "User option" UserResponse
  | Logout
  | SetActiveChat ActiveChat
  | RunEffects
  | GlobalInsert Message
  | ChatInsert "string \<Rightarrow> User option" Message
  | Resume nat
  | Fetched "Message list option"
  | Send "string option"

definition init :: "User option \<Rightarrow> Session" where
  "init storedUser =
     \<lparr>currentUser = storedUser, usernameInput = [], isLoggingIn = False, activeChat = None,
      unreadCounts = Map.empty, messages = [], newMessage = [], chat_user = storedUser,
      alerts = []\<rparr>"

definition mount :: "User option \<Rightarrow> App" where
  "mount storedUser =
     \<lparr>session = init storedUser, effect_due = False, globalSub_closure = None,
      messageSub_closure = None, awaiting = []\<rparr>"

text \<open>
  The run of the effects: the one on \<^verbatim>\<open>[activeChat]\<close> if it is due, then the two
  that unsubscribe and subscribe again with the present user and chat.
\<close>

definition run_effects :: "App \<Rightarrow> App" where
  "run_effects a =
     a\<lparr>session :=
         (if effect_due a
          then (session a)\<lparr>unreadCounts :=
                 activeChat_effect (activeChat (session a)) (unreadCounts (session a))\<rparr>
          else session a),
       effect_due := False,
       globalSub_closure :=
         (case currentUser (session a) of
            None \<Rightarrow> None
          | Some cu \<Rightarrow> Some (cu, activeChat (session a))),
       messageSub_closure :=
         (case currentUser (session a) of
            None \<Rightarrow> None
          | Some cu \<Rightarrow>
              (case activeChat (session a) of
                 None \<Rightarrow> None
               | Some ac \<Rightarrow> Some (cu, ac)))\<rparr>"

fun step :: "App \<Rightarrow> event \<Rightarrow> App" where
  "step a (SetUsernameInput v) = a\<lparr>session := (session a)\<lparr>usernameInput := v\<rparr>\<rparr>"
| "step a (SetNewMessage v) = a\<lparr>session := (session a)\<lparr>newMessage := v\<rparr>\<rparr>"
| "step a (Login existingUser created) =
     a\<lparr>session := fst (handleLogin existingUser created (session a))\<rparr>"
| "step a Logout =
     a\<lparr>session := handleLogout (session a),
       effect_due := (effect_due a \<or> activeChat (session a) \<noteq> None)\<rparr>"
| "step a (SetActiveChat ac) =
     a\<lparr>session := (session a)\<lparr>activeChat := Some ac\<rparr>, effect_due := True\<rparr>"
| "step a RunEffects = run_effects a"
| "step a (GlobalInsert msg) =
     (case globalSub_closure a of
        None \<Rightarrow> a
      | Some (cu, ac) \<Rightarrow>
          a\<lparr>session := (session a)\<lparr>unreadCounts :=
               globalMessageSub cu ac (unreadCounts (session a)) msg\<rparr>\<rparr>)"
| "step a (ChatInsert users msg) =
     (case messageSub_closure a of
        None \<Rightarrow> a
      | Some (cu, ac) \<Rightarrow>
          a\<lparr>awaiting := awaiting a @ [\<lambda>prev. messageSub cu ac users prev msg]\<rparr>)"
| "step a (Resume n) =
     (if n < length (awaiting a)
      then a\<lparr>session := (session a)\<lparr>messages := (awaiting a ! n) (messages (session a))\<rparr>,
             awaiting := take n (awaiting a) @ drop (Suc n) (awaiting a)\<rparr>
      else a)"
| "step a (Fetched reply) = a\<lparr>session := fetchMessages_reply reply (session a)\<rparr>"
| "step a (Send err) = a\<lparr>session := fst (sendMessage err (session a))\<rparr>"

inductive reachable :: "App \<Rightarrow> bool" where
  reachable_mount: "reachable (mount storedUser)"
| reachable_step: "reachable a \<Longrightarrow> reachable (step a e)"

text \<open>The events that leave the active chat as it is: all but a click on a chat and a logout.\<close>

fun keeps_chat :: "event \<Rightarrow> bool" where
  "keeps_chat (SetActiveChat ac) = False"
| "keeps_chat Logout = False"
| "keeps_chat e = True"

section \<open>Example values\<close>

text \<open>
  Three white-space code points beyond ASCII (U+00A0, U+2003, U+3000) in UTF-8, two
  users, chats with users and groups, and rows of the store.
\<close>

definition nbsp :: string where
  "nbsp = [CHR 0xC2, CHR 0xA0]"

definition em_space :: string where
  "em_space = [CHR 0xE2, CHR 0x80, CHR 0x83]"

definition ideographic_space :: string where
  "ideographic_space = [CHR 0xE3, CHR 0x80, CHR 0x80]"

definition hello_nbsp :: string where
  "hello_nbsp = ''hello'' @ nbsp"

definition padded_alice :: string where
  "padded_alice = em_space @ ''alice'' @ nbsp"

definition user_A :: User where
  "user_A = \<lparr>id_user = ''A'', username = ''alice'', last_seen = None\<rparr>"

definition user_B :: User where
  "user_B = \<lparr>id_user = ''B'', username = ''bob'', last_seen = None\<rparr>"

definition chat_A :: ActiveChat where
  "chat_A = \<lparr>type_chat = user, id_chat = ''A''\<rparr>"

definition chat_B :: ActiveChat where
  "chat_B = \<lparr>type_chat = user, id_chat = ''B''\<rparr>"

definition chat_C :: ActiveChat where
  "chat_C = \<lparr>type_chat = user, id_chat = ''C''\<rparr>"

definition chat_G :: ActiveChat where
  "chat_G = \<lparr>type_chat = group, id_chat = ''G''\<rparr>"

definition group_named_A :: ActiveChat where
  "group_named_A = \<lparr>type_chat = group, id_chat = ''A''\<rparr>"

definition dm_A_B :: "string \<Rightarrow> string \<Rightarrow> Message" where
  "dm_A_B i t = \<lparr>sender_id = ''A'', receiver_id = Some ''B'', group_id = None, content = ''hello'',
                 id_msg = i, created_at = t, sender = None\<rparr>"

definition dm_B_A :: "string \<Rightarrow> string \<Rightarrow> Message" where
  "dm_B_A i t = \<lparr>sender_id = ''B'', receiver_id = Some ''A'', group_id = None, content = ''hi'',
                 id_msg = i, created_at = t, sender = None\<rparr>"

definition gm_A_G :: "string \<Rightarrow> string \<Rightarrow> Message" where
  "gm_A_G i t = \<lparr>sender_id = ''A'', receiver_id = None, group_id = Some ''G'', content = ''all'',
                 id_msg = i, created_at = t, sender = None\<rparr>"

definition dm_C_B :: "string \<Rightarrow> string \<Rightarrow> Message" where
  "dm_C_B i t = \<lparr>sender_id = ''C'', receiver_id = Some ''B'', group_id = None, content = ''hey'',
                 id_msg = i, created_at = t, sender = None\<rparr>"

definition sent_first :: MessageData where
  "sent_first = \<lparr>sender_id = ''A'', receiver_id = Some ''B'', group_id = None, content = ''first''\<rparr>"

definition sent_second :: MessageData where
  "sent_second = \<lparr>sender_id = ''A'', receiver_id = Some ''B'', group_id = None, content = ''second''\<rparr>"

definition row_first :: Message where
  "row_first = \<lparr>sender_id = ''A'', receiver_id = Some ''B'', group_id = None, content = ''first'',
                 id_msg = ''1'', created_at = ''tt'', sender = None\<rparr>"

definition row_second :: Message where
  "row_second = \<lparr>sender_id = ''A'', receiver_id = Some ''B'', group_id = None, content = ''second'',
                  id_msg = ''2'', created_at = ''t'', sender = None\<rparr>"

definition users_AB :: "string \<Rightarrow> User option" where
  "users_AB = [''A'' \<mapsto> user_A, ''B'' \<mapsto> user_B]"

definition session_A :: "ActiveChat option \<Rightarrow> string \<Rightarrow> Session" where
  "session_A ac txt = (init (Some user_A))\<lparr>activeChat := ac, newMessage := txt\<rparr>"

section \<open>Facts about the example values\<close>

lemma session_A_fields:
  "currentUser (session_A ac txt) = Some user_A" "activeChat (session_A ac txt) = ac"
  "newMessage (session_A ac txt) = txt"
  by (simp_all add: session_A_def init_def)

lemma example_ids:
  "id_user user_A = ''A''" "id_user user_B = ''B''"
  "id_chat chat_A = ''A''" "id_chat chat_B = ''B''" "id_chat chat_C = ''C''" "id_chat chat_G = ''G''"
  "type_chat chat_A = user" "type_chat chat_B = user" "type_chat chat_C = user"
  "type_chat chat_G = group"
  by (simp_all add: user_A_def user_B_def chat_A_def chat_B_def chat_C_def chat_G_def)

lemma request_eq:
  "sender_id d = a \<Longrightarrow> receiver_id d = r \<Longrightarrow> group_id d = g \<Longrightarrow> content d = c \<Longrightarrow>
   d = \<lparr>sender_id = a, receiver_id = r, group_id = g, content = c\<rparr>"
  by (cases d) simp

section \<open>Trimming\<close>

lemma trim_ascii: "trim ''  '' = []" "trim '' hello '' = ''hello''" "trim ''hello'' = ''hello''"
  "trim '' alice'' = ''alice''"
  by (simp_all add: trim_def WhiteSpace_def)

lemma trim_unicode: "trim nbsp = []" "trim ideographic_space = []"
  "trim hello_nbsp = ''hello''" "trim padded_alice = ''alice''"
  by (simp_all add: trim_def WhiteSpace_def nbsp_def em_space_def ideographic_space_def
      hello_nbsp_def padded_alice_def)

section \<open>Properties of the unread tracker\<close>

lemma bump_neq: "prev(k \<mapsto> unread prev k + 1) \<noteq> prev"
proof
  assume "prev(k \<mapsto> unread prev k + 1) = prev"
  then have "(prev(k \<mapsto> unread prev k + 1)) k = prev k"
    by (rule arg_cong)
  then show False
    by (cases "prev k") (simp_all add: unread_def)
qed

lemma globalMessageSub_cases:
  "globalMessageSub u a prev m =
     (if sender_id m \<noteq> id_user u \<and> isRelevant m u \<and> map_option id_chat a \<noteq> Some (chatId m)
      then prev(chatId m \<mapsto> unread prev (chatId m) + 1)
      else prev)"
  by (auto simp add: globalMessageSub_def)

lemma direct_chatId: "\<not> truthy (group_id m) \<Longrightarrow> chatId m = sender_id m"
  by (simp add: chatId_def truthy_def split: option.splits)

lemma group_chatId: "truthy (group_id m) \<Longrightarrow> group_id m = Some (chatId m)"
  by (simp add: chatId_def truthy_def split: option.splits)

lemma unread_upd: "unread (p(k \<mapsto> n)) k = n"
  by (simp add: unread_def)

lemma globalMessageSub_direct:
  assumes "sender_id m \<noteq> id_user u" and "\<not> truthy (group_id m)"
    and "receiver_id m = Some (id_user u)" and "sender_id m \<noteq> id_chat c"
  shows "globalMessageSub u (Some c) prev m = prev(sender_id m \<mapsto> unread prev (sender_id m) + 1)"
  using assms by (simp add: globalMessageSub_cases direct_chatId isRelevant_def)

lemma direct_step:
  assumes "sender_id x = id_user A" and "receiver_id x = Some (id_user B)"
    and "\<not> truthy (group_id x)" and "id_user A \<noteq> id_user B" and "id_user A \<noteq> id_chat C"
  shows "globalMessageSub B (Some C) p x = p(id_user A \<mapsto> unread p (id_user A) + 1)"
  using globalMessageSub_direct [of x B C p] assms by simp

text \<open>
  C7. Activation of a conversation \<open>c\<close> sets the unread count of \<open>c\<close> to \<open>0\<close>
  whatever the map held before, also when \<open>c\<close> had no entry (the entry then exists
  with value \<open>0\<close>); a second activation finds the count \<open>0\<close> and leaves the map as
  the first one made it.
\<close>

theorem activation_idempotent:
  "activeChat_effect (Some c) prev (id_chat c) = Some 0
   \<and> activeChat_effect (Some c) Map.empty (id_chat c) = Some 0
   \<and> activeChat_effect (Some c) (activeChat_effect (Some c) prev) (id_chat c) = Some 0
   \<and> activeChat_effect (Some c) (activeChat_effect (Some c) prev) = activeChat_effect (Some c) prev"
  by (simp add: activeChat_effect_def)

theorem activation_idempotent_witness:
  "activeChat_effect (Some \<lparr>type_chat = user, id_chat = ''a''\<rparr>) [''a'' \<mapsto> 4] ''a'' = Some 0
   \<and> activeChat_effect (Some \<lparr>type_chat = user, id_chat = ''a''\<rparr>) Map.empty ''a'' = Some 0
   \<and> activeChat_effect (Some \<lparr>type_chat = user, id_chat = ''a''\<rparr>)
        (activeChat_effect (Some \<lparr>type_chat = user, id_chat = ''a''\<rparr>) [''a'' \<mapsto> 4]) ''a'' = Some 0"
  using activation_idempotent [of "\<lparr>type_chat = user, id_chat = ''a''\<rparr>" "[''a'' \<mapsto> 4]"]
  by simp

text \<open>
  C1. The handler of the global subscription, for an observed message \<open>m\<close>, the
  observing user \<open>u\<close> and the active chat \<open>a\<close> (if any): it adds exactly \<open>1\<close> to
  the count stored under the derived conversation id, a missing entry counting as
  \<open>0\<close>, when \<open>m\<close> is not authored by \<open>u\<close>, is relevant and its conversation id is
  not the id of \<open>a\<close>; in every other case it returns the map it was given. The map
  changes if and only if these three conditions hold. The conversation id is the
  group id when the message has one (in the sense of the code's test: neither
  missing nor empty) and the sender's id otherwise; a message is relevant when it
  has a group id or is addressed to \<open>u\<close>. In particular, after \<open>B\<close> has activated
  the chat \<open>C\<close>, three direct messages from \<open>A\<close> to \<open>B\<close> bring \<open>B\<close>'s count for \<open>A\<close>
  from \<open>0\<close> to \<open>3\<close> and leave the count for \<open>C\<close> at \<open>0\<close>.
\<close>

theorem unread_increment:
  "globalMessageSub u a prev m =
     (if sender_id m \<noteq> id_user u \<and> isRelevant m u \<and> map_option id_chat a \<noteq> Some (chatId m)
      then prev(chatId m \<mapsto> unread prev (chatId m) + 1)
      else prev)
   \<and> (globalMessageSub u a prev m \<noteq> prev) =
       (sender_id m \<noteq> id_user u \<and> isRelevant m u \<and> map_option id_chat a \<noteq> Some (chatId m))
   \<and> chatId m = (if truthy (group_id m) then the (group_id m) else sender_id m)
   \<and> isRelevant m u = (truthy (group_id m) \<or> receiver_id m = Some (id_user u))
   \<and> ((\<forall>x \<in> set [m1, m2, m3]. sender_id x = id_user A \<and> receiver_id x = Some (id_user B) \<and> \<not> truthy (group_id x))
        \<and> id_user A \<noteq> id_user B \<and> id_user A \<noteq> id_chat C \<and> unread prev (id_user A) = 0
      \<longrightarrow> foldl (globalMessageSub B (Some C)) (activeChat_effect (Some C) prev) [m1, m2, m3] (id_user A) = Some 3
        \<and> foldl (globalMessageSub B (Some C)) (activeChat_effect (Some C) prev) [m1, m2, m3] (id_chat C) = Some 0)"
proof (intro conjI impI)
  show "globalMessageSub u a prev m =
     (if sender_id m \<noteq> id_user u \<and> isRelevant m u \<and> map_option id_chat a \<noteq> Some (chatId m)
      then prev(chatId m \<mapsto> unread prev (chatId m) + 1)
      else prev)"
    by (rule globalMessageSub_cases)
  show "(globalMessageSub u a prev m \<noteq> prev) =
       (sender_id m \<noteq> id_user u \<and> isRelevant m u \<and> map_option id_chat a \<noteq> Some (chatId m))"
    using bump_neq [of prev "chatId m"] by (simp add: globalMessageSub_cases)
  show "chatId m = (if truthy (group_id m) then the (group_id m) else sender_id m)"
    by (simp add: chatId_def truthy_def split: option.splits)
  show "isRelevant m u = (truthy (group_id m) \<or> receiver_id m = Some (id_user u))"
    by (simp add: isRelevant_def)
next
  assume h: "(\<forall>x \<in> set [m1, m2, m3]. sender_id x = id_user A \<and> receiver_id x = Some (id_user B) \<and> \<not> truthy (group_id x))
        \<and> id_user A \<noteq> id_user B \<and> id_user A \<noteq> id_chat C \<and> unread prev (id_user A) = 0"
  let ?p0 = "activeChat_effect (Some C) prev"
  from h have ne: "id_user A \<noteq> id_user B" "id_user A \<noteq> id_chat C" by blast+
  from h have d1: "sender_id m1 = id_user A" "receiver_id m1 = Some (id_user B)" "\<not> truthy (group_id m1)"
    by simp_all
  from h have d2: "sender_id m2 = id_user A" "receiver_id m2 = Some (id_user B)" "\<not> truthy (group_id m2)"
    by simp_all
  from h have d3: "sender_id m3 = id_user A" "receiver_id m3 = Some (id_user B)" "\<not> truthy (group_id m3)"
    by simp_all
  have u0: "unread ?p0 (id_user A) = 0"
    using h by (simp add: activeChat_effect_def unread_def)
  have c0: "?p0 (id_chat C) = Some 0"
    by (simp add: activeChat_effect_def)
  obtain p1 where p1: "p1 = globalMessageSub B (Some C) ?p0 m1" by simp
  obtain p2 where p2: "p2 = globalMessageSub B (Some C) p1 m2" by simp
  obtain p3 where p3: "p3 = globalMessageSub B (Some C) p2 m3" by simp
  have s1: "unread p1 (id_user A) = 1 \<and> p1 (id_chat C) = Some 0"
    using direct_step [OF d1 ne, of ?p0] u0 c0 ne by (simp add: p1 unread_upd)
  have s2: "unread p2 (id_user A) = 2 \<and> p2 (id_chat C) = Some 0"
    using direct_step [OF d2 ne, of p1] s1 ne by (simp add: p2 unread_upd)
  have s3: "p3 (id_user A) = Some 3 \<and> p3 (id_chat C) = Some 0"
    using direct_step [OF d3 ne, of p2] s2 ne by (simp add: p3)
  have f: "foldl (globalMessageSub B (Some C)) ?p0 [m1, m2, m3] = p3"
    by (simp add: p1 p2 p3)
  show "foldl (globalMessageSub B (Some C)) ?p0 [m1, m2, m3] (id_user A) = Some 3"
    using s3 by (simp only: f)
  show "foldl (globalMessageSub B (Some C)) ?p0 [m1, m2, m3] (id_chat C) = Some 0"
    using s3 by (simp only: f)
qed

text \<open>
  At concrete values: three direct messages from \<open>A\<close> to \<open>B\<close> while \<open>B\<close> views the
  chat with \<open>C\<close>; the same message while \<open>B\<close> views the chat with \<open>A\<close>; and the
  same message observed by its author.
\<close>

theorem unread_increment_witness:
  "foldl (globalMessageSub user_B (Some chat_C)) (activeChat_effect (Some chat_C) Map.empty)
      [dm_A_B ''1'' ''t1'', dm_A_B ''2'' ''t2'', dm_A_B ''3'' ''t3''] ''A'' = Some 3
   \<and> foldl (globalMessageSub user_B (Some chat_C)) (activeChat_effect (Some chat_C) Map.empty)
      [dm_A_B ''1'' ''t1'', dm_A_B ''2'' ''t2'', dm_A_B ''3'' ''t3''] ''C'' = Some 0
   \<and> globalMessageSub user_B (Some chat_C) Map.empty (dm_A_B ''1'' ''t1'') = [''A'' \<mapsto> 1]
   \<and> globalMessageSub user_B (Some chat_A) Map.empty (dm_A_B ''1'' ''t1'') = Map.empty
   \<and> globalMessageSub user_A (Some chat_C) Map.empty (dm_A_B ''1'' ''t1'') = Map.empty"
  using unread_increment [of user_B "Some chat_C" Map.empty "dm_A_B ''1'' ''t1''"
      "dm_A_B ''1'' ''t1''" "dm_A_B ''2'' ''t2''" "dm_A_B ''3'' ''t3''" user_A user_B chat_C]
    unread_increment [of user_B "Some chat_A" Map.empty "dm_A_B ''1'' ''t1''"]
    unread_increment [of user_A "Some chat_C" Map.empty "dm_A_B ''1'' ''t1''"]
  by (simp add: user_A_def user_B_def chat_A_def chat_C_def dm_A_B_def truthy_def unread_def
      isRelevant_def chatId_def globalMessageSub_def activeChat_effect_def)

text \<open>
  C10. The test that suppresses the increment for the active chat compares ids only:
  a message whose conversation id is the id of the active chat leaves the map
  unchanged whatever the type of the active chat. So a direct message is suppressed
  while a group with the sender's id is active, and a group message while a direct
  chat with the group's id is active.
\<close>

theorem suppression_ignores_type:
  "globalMessageSub u (Some \<lparr>type_chat = ty, id_chat = chatId m\<rparr>) prev m = prev
   \<and> (\<not> truthy (group_id m) \<longrightarrow>
        globalMessageSub u (Some \<lparr>type_chat = group, id_chat = sender_id m\<rparr>) prev m = prev)
   \<and> (truthy (group_id m) \<longrightarrow>
        globalMessageSub u (Some \<lparr>type_chat = user, id_chat = the (group_id m)\<rparr>) prev m = prev)
   \<and> (id_chat ac = chatId m \<longrightarrow> globalMessageSub u (Some ac) prev m = prev)"
  using direct_chatId [of m] group_chatId [of m]
  by (auto simp add: globalMessageSub_def)

text \<open>
  A direct message from \<open>A\<close> to \<open>B\<close>, relevant to \<open>B\<close>: suppressed while the group
  with id \<open>A\<close> is active, as while the direct chat with \<open>A\<close> is; counted while the
  group \<open>G\<close> is active. A message to the group \<open>G\<close>: suppressed while the direct chat
  with id \<open>G\<close> is active.
\<close>

theorem suppression_ignores_type_witness:
  "isRelevant (dm_A_B ''1'' ''t1'') user_B
   \<and> globalMessageSub user_B (Some group_named_A) Map.empty (dm_A_B ''1'' ''t1'') = Map.empty
   \<and> globalMessageSub user_B (Some chat_A) Map.empty (dm_A_B ''1'' ''t1'') = Map.empty
   \<and> globalMessageSub user_B (Some chat_G) Map.empty (dm_A_B ''1'' ''t1'') = [''A'' \<mapsto> 1]
   \<and> globalMessageSub user_B (Some \<lparr>type_chat = user, id_chat = ''G''\<rparr>) Map.empty (gm_A_G ''1'' ''t1'')
       = Map.empty"
  using suppression_ignores_type [of user_B group "dm_A_B ''1'' ''t1''" Map.empty group_named_A]
    suppression_ignores_type [of user_B user "gm_A_G ''1'' ''t1''" Map.empty chat_A]
  by (simp add: user_B_def chat_A_def chat_G_def group_named_A_def dm_A_B_def gm_A_G_def
      truthy_def unread_def isRelevant_def chatId_def globalMessageSub_def)

text \<open>
  C3, as stated, has the active chat as the only thing that keeps an author from
  being notified of the author's own group message. The handler's first statement
  does that as well: \<open>A\<close> posts to the group \<open>G\<close> while viewing the chat with \<open>C\<close>; the
  message is relevant to \<open>A\<close>, its conversation is not the active one, and \<open>A\<close>'s map
  is unchanged all the same (for \<open>B\<close>, in the same view, it is counted).
\<close>

theorem group_self_notification_counterexample:
  "truthy (group_id (gm_A_G ''1'' ''t1''))
   \<and> sender_id (gm_A_G ''1'' ''t1'') = id_user user_A
   \<and> isRelevant (gm_A_G ''1'' ''t1'') user_A
   \<and> map_option id_chat (Some chat_C) \<noteq> Some (chatId (gm_A_G ''1'' ''t1''))
   \<and> globalMessageSub user_A (Some chat_C) Map.empty (gm_A_G ''1'' ''t1'') = Map.empty
   \<and> globalMessageSub user_B (Some chat_C) Map.empty (gm_A_G ''1'' ''t1'') = [''G'' \<mapsto> 1]"
  by (simp add: user_A_def user_B_def chat_C_def gm_A_G_def
      truthy_def unread_def isRelevant_def chatId_def globalMessageSub_def)

text \<open>
  C3, amended. A message with a group id passes the relevance test for every
  observing user, its own sender included. What suppresses self-notification is not
  the relevance test but the handler's guard on the sender: a message authored by
  the observer leaves the map unchanged whatever the active chat. A group message of
  another user is suppressed exactly when its group is the active chat.
\<close>

theorem group_relevance:
  "(truthy (group_id m) \<longrightarrow> isRelevant m u)
   \<and> (sender_id m = id_user u \<longrightarrow> globalMessageSub u a prev m = prev)
   \<and> (truthy (group_id m) \<and> sender_id m \<noteq> id_user u \<longrightarrow>
        (globalMessageSub u a prev m = prev) = (map_option id_chat a = Some (chatId m)))"
  using bump_neq [of prev "chatId m"]
  by (auto simp add: globalMessageSub_def isRelevant_def)

text \<open>
  The message of \<open>A\<close> to the group \<open>G\<close>: relevant to \<open>A\<close> and to \<open>B\<close>; not counted for
  \<open>A\<close> with no chat active; not counted for \<open>B\<close> viewing \<open>G\<close>; counted for \<open>B\<close>
  viewing \<open>C\<close>.
\<close>

theorem group_relevance_witness:
  "truthy (group_id (gm_A_G ''1'' ''t1''))
   \<and> isRelevant (gm_A_G ''1'' ''t1'') user_A \<and> isRelevant (gm_A_G ''1'' ''t1'') user_B
   \<and> globalMessageSub user_A None Map.empty (gm_A_G ''1'' ''t1'') = Map.empty
   \<and> globalMessageSub user_B (Some chat_G) Map.empty (gm_A_G ''1'' ''t1'') = Map.empty
   \<and> globalMessageSub user_B (Some chat_C) Map.empty (gm_A_G ''1'' ''t1'') \<noteq> Map.empty"
  using group_relevance [of "gm_A_G ''1'' ''t1''" user_A None Map.empty]
    group_relevance [of "gm_A_G ''1'' ''t1''" user_B "Some chat_G" Map.empty]
    group_relevance [of "gm_A_G ''1'' ''t1''" user_B "Some chat_C" Map.empty]
  by (simp add: user_A_def user_B_def chat_C_def chat_G_def gm_A_G_def
      truthy_def unread_def isRelevant_def chatId_def)

text \<open>
  C4. For a direct message (no group id) the conversation id that the handler
  derives, which is the id the receiver files it under, is the sender's id. The
  sender files it under the receiver's id: \<^verbatim>\<open>sendMessage\<close> in a chat of type
  \<^verbatim>\<open>user\<close> addresses the row to the id of the sender's active chat, with the
  sender as \<^verbatim>\<open>sender_id\<close> and no group id, so that the receiver derives the
  sender's id from it. Each side thus names the exchange by the other party's id,
  and the history filter of one side for the other's id is the filter of the other
  side for the first one's id. The conversation id is a function of the row alone.
\<close>

theorem conversation_id_symmetry:
  "(\<not> truthy (group_id m) \<longrightarrow> chatId m = sender_id m)
   \<and> (currentUser s = Some cu \<and> activeChat s = Some ac \<and> type_chat ac = user
        \<and> trim (newMessage s) \<noteq> [] \<longrightarrow>
        (\<exists>d. snd (sendMessage err s) = [InsertMessage d]
           \<and> sender_id d = id_user cu \<and> receiver_id d = Some (id_chat ac) \<and> group_id d = None
           \<and> chatId d = id_user cu))
   \<and> fetch_filter cu \<lparr>type_chat = user, id_chat = id_user other\<rparr> m
       = fetch_filter other \<lparr>type_chat = user, id_chat = id_user cu\<rparr> m"
proof (intro conjI impI)
  assume "\<not> truthy (group_id m)"
  then show "chatId m = sender_id m" by (rule direct_chatId)
next
  assume "currentUser s = Some cu \<and> activeChat s = Some ac \<and> type_chat ac = user
        \<and> trim (newMessage s) \<noteq> []"
  then show "\<exists>d. snd (sendMessage err s) = [InsertMessage d]
           \<and> sender_id d = id_user cu \<and> receiver_id d = Some (id_chat ac) \<and> group_id d = None
           \<and> chatId d = id_user cu"
    by (cases err) (simp_all add: sendMessage_def chatId_def)
next
  show "fetch_filter cu \<lparr>type_chat = user, id_chat = id_user other\<rparr> m
       = fetch_filter other \<lparr>type_chat = user, id_chat = id_user cu\<rparr> m"
    by (auto simp add: fetch_filter_def)
qed

text \<open>
  \<open>A\<close>, in the chat with \<open>B\<close>, sends; the row goes to \<open>B\<close>, its conversation id is
  \<open>A\<close>, and it passes the history filter of \<open>A\<close> for \<open>B\<close> and of \<open>B\<close> for \<open>A\<close>.
\<close>

theorem conversation_id_symmetry_witness:
  "snd (sendMessage None (session_A (Some chat_B) ''hello''))
     = [InsertMessage \<lparr>sender_id = ''A'', receiver_id = Some ''B'', group_id = None, content = ''hello''\<rparr>]
   \<and> chatId (dm_A_B ''1'' ''t1'') = ''A''
   \<and> fetch_filter user_A chat_B (dm_A_B ''1'' ''t1'')
   \<and> fetch_filter user_B chat_A (dm_A_B ''1'' ''t1'')"
  using conversation_id_symmetry [where m = "dm_A_B ''1'' ''t1''"
      and s = "session_A (Some chat_B) ''hello''" and cu = user_A and ac = chat_B and err = None
      and other = user_B]
  by (simp add: session_A_def init_def user_A_def user_B_def chat_A_def chat_B_def dm_A_B_def
      truthy_def chatId_def trim_ascii sendMessage_def fetch_filter_def)

text \<open>
  C9. \<^verbatim>\<open>sendMessage\<close> does nothing when the composed text trims to the empty
  string, or no user is logged in, or no chat is active: no request is issued and
  the whole session state (messages, unread counts and the rest) is returned as it
  was. Otherwise it issues exactly one insert, whose content is the trimmed text,
  whose sender is the current user, and which carries exactly one of
  \<^verbatim>\<open>receiver_id\<close> and \<^verbatim>\<open>group_id\<close>, the id of the active chat, chosen by the
  chat's type.
\<close>

theorem sendMessage_guard:
  "(trim (newMessage s) = [] \<or> currentUser s = None \<or> activeChat s = None \<longrightarrow>
      sendMessage err s = (s, []))
   \<and> (trim (newMessage s) \<noteq> [] \<and> currentUser s = Some cu \<and> activeChat s = Some ac \<longrightarrow>
       (\<exists>d. snd (sendMessage err s) = [InsertMessage d]
          \<and> content d = trim (newMessage s) \<and> sender_id d = id_user cu
          \<and> (if type_chat ac = user
              then receiver_id d = Some (id_chat ac) \<and> group_id d = None
              else receiver_id d = None \<and> group_id d = Some (id_chat ac))
          \<and> (receiver_id d = None) \<noteq> (group_id d = None)))"
proof (intro conjI impI)
  assume "trim (newMessage s) = [] \<or> currentUser s = None \<or> activeChat s = None"
  then show "sendMessage err s = (s, [])"
    by (auto simp add: sendMessage_def split: option.splits)
next
  assume "trim (newMessage s) \<noteq> [] \<and> currentUser s = Some cu \<and> activeChat s = Some ac"
  then show "\<exists>d. snd (sendMessage err s) = [InsertMessage d]
          \<and> content d = trim (newMessage s) \<and> sender_id d = id_user cu
          \<and> (if type_chat ac = user
              then receiver_id d = Some (id_chat ac) \<and> group_id d = None
              else receiver_id d = None \<and> group_id d = Some (id_chat ac))
          \<and> (receiver_id d = None) \<noteq> (group_id d = None)"
    by (cases err) (simp_all add: sendMessage_def)
qed

text \<open>
  Blank text (spaces, or a no-break space alone), no active chat, no user: nothing
  happens. The text \<open>'' hello ''\<close> in a direct chat and in a group chat, and the text
  \<open>hello\<close> followed by a no-break space: one insert each, trimmed, addressed by
  the type.
\<close>

theorem sendMessage_guard_witness:
  "sendMessage None (session_A (Some chat_B) ''  '') = (session_A (Some chat_B) ''  '', [])
   \<and> sendMessage None (session_A (Some chat_B) nbsp) = (session_A (Some chat_B) nbsp, [])
   \<and> sendMessage None (session_A None ''hello'') = (session_A None ''hello'', [])
   \<and> sendMessage None ((session_A (Some chat_B) ''hello'')\<lparr>currentUser := None\<rparr>)
       = ((session_A (Some chat_B) ''hello'')\<lparr>currentUser := None\<rparr>, [])
   \<and> snd (sendMessage None (session_A (Some chat_B) '' hello ''))
       = [InsertMessage \<lparr>sender_id = ''A'', receiver_id = Some ''B'', group_id = None, content = ''hello''\<rparr>]
   \<and> snd (sendMessage None (session_A (Some chat_B) hello_nbsp))
       = [InsertMessage \<lparr>sender_id = ''A'', receiver_id = Some ''B'', group_id = None, content = ''hello''\<rparr>]
   \<and> snd (sendMessage None (session_A (Some chat_G) '' hello ''))
       = [InsertMessage \<lparr>sender_id = ''A'', receiver_id = None, group_id = Some ''G'', content = ''hello''\<rparr>]"
proof -
  have g1: "sendMessage None (session_A (Some chat_B) ''  '') = (session_A (Some chat_B) ''  '', [])"
    using sendMessage_guard [where s = "session_A (Some chat_B) ''  ''" and err = None]
    by (simp add: session_A_fields trim_ascii)
  have g2: "sendMessage None (session_A (Some chat_B) nbsp) = (session_A (Some chat_B) nbsp, [])"
    using sendMessage_guard [where s = "session_A (Some chat_B) nbsp" and err = None]
    by (simp add: session_A_fields trim_unicode)
  have g3: "sendMessage None (session_A None ''hello'') = (session_A None ''hello'', [])"
    using sendMessage_guard [where s = "session_A None ''hello''" and err = None]
    by (simp add: session_A_fields)
  have g3': "sendMessage None ((session_A (Some chat_B) ''hello'')\<lparr>currentUser := None\<rparr>)
       = ((session_A (Some chat_B) ''hello'')\<lparr>currentUser := None\<rparr>, [])"
    using sendMessage_guard [where s = "(session_A (Some chat_B) ''hello'')\<lparr>currentUser := None\<rparr>"
        and err = None]
    by simp
  have "\<exists>d. snd (sendMessage None (session_A (Some chat_B) '' hello '')) = [InsertMessage d]
      \<and> content d = ''hello'' \<and> sender_id d = ''A'' \<and> receiver_id d = Some ''B'' \<and> group_id d = None"
    using sendMessage_guard [where s = "session_A (Some chat_B) '' hello ''" and cu = user_A
        and ac = chat_B and err = None]
    by (simp add: session_A_fields example_ids trim_ascii) blast
  then have g4: "snd (sendMessage None (session_A (Some chat_B) '' hello ''))
       = [InsertMessage \<lparr>sender_id = ''A'', receiver_id = Some ''B'', group_id = None, content = ''hello''\<rparr>]"
    using request_eq by blast
  have "\<exists>d. snd (sendMessage None (session_A (Some chat_B) hello_nbsp)) = [InsertMessage d]
      \<and> content d = ''hello'' \<and> sender_id d = ''A'' \<and> receiver_id d = Some ''B'' \<and> group_id d = None"
    using sendMessage_guard [where s = "session_A (Some chat_B) hello_nbsp" and cu = user_A
        and ac = chat_B and err = None]
    by (simp add: session_A_fields example_ids trim_unicode) blast
  then have g5: "snd (sendMessage None (session_A (Some chat_B) hello_nbsp))
       = [InsertMessage \<lparr>sender_id = ''A'', receiver_id = Some ''B'', group_id = None, content = ''hello''\<rparr>]"
    using request_eq by blast
  have "\<exists>d. snd (sendMessage None (session_A (Some chat_G) '' hello '')) = [InsertMessage d]
      \<and> content d = ''hello'' \<and> sender_id d = ''A'' \<and> receiver_id d = None \<and> group_id d = Some ''G''"
    using sendMessage_guard [where s = "session_A (Some chat_G) '' hello ''" and cu = user_A
        and ac = chat_G and err = None]
    by (simp add: session_A_fields example_ids trim_ascii) blast
  then have g6: "snd (sendMessage None (session_A (Some chat_G) '' hello ''))
       = [InsertMessage \<lparr>sender_id = ''A'', receiver_id = None, group_id = Some ''G'', content = ''hello''\<rparr>]"
    using request_eq by blast
  show ?thesis
    by (intro conjI g1 g2 g3 g3' g4 g5 g6)
qed

text \<open>
  C8. \<^verbatim>\<open>handleLogin\<close>. With a user name that trims to the empty string nothing
  is looked up and nothing changes. Otherwise the trimmed name is looked up. If the
  lookup returns a row, that user becomes the current user and the lookup is the
  only request: nothing is inserted. If it returns none, one insert of the trimmed
  name is issued; when the store answers with the new row, that user becomes the
  current user; when it answers with an error, the failure is reported by an alert,
  the current user and the stored user are what they were, and the insert is not
  repeated.
\<close>

theorem login_cases:
  "(trim (usernameInput s) = [] \<longrightarrow> handleLogin existingUser created s = (s, []))
   \<and> (trim (usernameInput s) \<noteq> [] \<longrightarrow>
       (currentUser (fst (handleLogin (Some eu) created s)) = Some eu
        \<and> snd (handleLogin (Some eu) created s) = [SelectUserByName (trim (usernameInput s))])
     \<and> (error created = None \<and> data created = Some nu \<longrightarrow>
          currentUser (fst (handleLogin None created s)) = Some nu
          \<and> snd (handleLogin None created s)
              = [SelectUserByName (trim (usernameInput s)), InsertUser (trim (usernameInput s))])
     \<and> (error created = Some e \<longrightarrow>
          currentUser (fst (handleLogin None created s)) = currentUser s
          \<and> chat_user (fst (handleLogin None created s)) = chat_user s
          \<and> alerts (fst (handleLogin None created s))
              = alerts s @ [''Failed to login. Make sure Supabase is configured.'']
          \<and> snd (handleLogin None created s)
              = [SelectUserByName (trim (usernameInput s)), InsertUser (trim (usernameInput s))]))"
  by (simp add: handleLogin_def)

text \<open>
  On a fresh session, the name \<open>alice\<close> between an em space and a no-break space:
  found; not found and created; not found and refused by the store. The name that
  is an ideographic space alone: nothing happens.
\<close>

theorem login_cases_witness:
  "currentUser (fst (handleLogin (Some user_A) \<lparr>data = None, error = None\<rparr>
        ((init None)\<lparr>usernameInput := padded_alice\<rparr>))) = Some user_A
   \<and> snd (handleLogin (Some user_A) \<lparr>data = None, error = None\<rparr>
        ((init None)\<lparr>usernameInput := padded_alice\<rparr>)) = [SelectUserByName ''alice'']
   \<and> currentUser (fst (handleLogin None \<lparr>data = Some user_A, error = None\<rparr>
        ((init None)\<lparr>usernameInput := padded_alice\<rparr>))) = Some user_A
   \<and> snd (handleLogin None \<lparr>data = Some user_A, error = None\<rparr>
        ((init None)\<lparr>usernameInput := padded_alice\<rparr>))
       = [SelectUserByName ''alice'', InsertUser ''alice'']
   \<and> currentUser (fst (handleLogin None \<lparr>data = None, error = Some ''duplicate key''\<rparr>
        ((init None)\<lparr>usernameInput := padded_alice\<rparr>))) = None
   \<and> alerts (fst (handleLogin None \<lparr>data = None, error = Some ''duplicate key''\<rparr>
        ((init None)\<lparr>usernameInput := padded_alice\<rparr>)))
       = [''Failed to login. Make sure Supabase is configured.'']
   \<and> handleLogin None \<lparr>data = Some user_A, error = None\<rparr>
        ((init None)\<lparr>usernameInput := ideographic_space\<rparr>)
       = ((init None)\<lparr>usernameInput := ideographic_space\<rparr>, [])"
proof -
  let ?s = "(init None)\<lparr>usernameInput := padded_alice\<rparr>"
  have inp: "usernameInput ?s = padded_alice" "currentUser ?s = None" "alerts ?s = []"
    by (simp_all add: init_def)
  have found: "currentUser (fst (handleLogin (Some user_A) \<lparr>data = None, error = None\<rparr> ?s)) = Some user_A
      \<and> snd (handleLogin (Some user_A) \<lparr>data = None, error = None\<rparr> ?s) = [SelectUserByName ''alice'']"
    using login_cases [where s = ?s and eu = user_A and created = "\<lparr>data = None, error = None\<rparr>"]
    by (simp add: inp trim_unicode)
  have created: "currentUser (fst (handleLogin None \<lparr>data = Some user_A, error = None\<rparr> ?s)) = Some user_A
      \<and> snd (handleLogin None \<lparr>data = Some user_A, error = None\<rparr> ?s)
          = [SelectUserByName ''alice'', InsertUser ''alice'']"
    using login_cases [where s = ?s and nu = user_A
        and created = "\<lparr>data = Some user_A, error = None\<rparr>"]
    by (simp add: inp trim_unicode)
  have refused: "currentUser (fst (handleLogin None \<lparr>data = None, error = Some ''duplicate key''\<rparr> ?s)) = None
      \<and> alerts (fst (handleLogin None \<lparr>data = None, error = Some ''duplicate key''\<rparr> ?s))
          = [''Failed to login. Make sure Supabase is configured.'']"
    using login_cases [where s = ?s and e = "''duplicate key''"
        and created = "\<lparr>data = None, error = Some ''duplicate key''\<rparr>"]
    by (simp add: inp trim_unicode)
  have blank: "handleLogin None \<lparr>data = Some user_A, error = None\<rparr>
        ((init None)\<lparr>usernameInput := ideographic_space\<rparr>)
       = ((init None)\<lparr>usernameInput := ideographic_space\<rparr>, [])"
    using login_cases [where s = "(init None)\<lparr>usernameInput := ideographic_space\<rparr>"
        and existingUser = None and created = "\<lparr>data = Some user_A, error = None\<rparr>"]
    by (simp add: trim_unicode)
  from found created refused blank show ?thesis
    by blast
qed

text \<open>
  C5. In a chat of type \<^verbatim>\<open>user\<close> between the current user and the chat's id, the
  callback of the chat's subscription appends an incoming row if and only if the
  row passes the filter of the history query, which is: sent by the user to the
  chat's id, or sent by the chat's id to the user. What is appended is the row with
  its \<^verbatim>\<open>sender\<close> set to the result of the lookup of \<^verbatim>\<open>sender_id\<close> in the users
  table, made before the append.
\<close>

theorem live_filter:
  "type_chat ac = user \<longrightarrow>
     messageSub cu ac users prev m
       = (if fetch_filter cu ac m then prev @ [m\<lparr>sender := users (sender_id m)\<rparr>] else prev)
     \<and> (messageSub cu ac users prev m \<noteq> prev) = fetch_filter cu ac m
     \<and> fetch_filter cu ac m
         = ((sender_id m = id_user cu \<and> receiver_id m = Some (id_chat ac))
          \<or> (sender_id m = id_chat ac \<and> receiver_id m = Some (id_user cu)))"
  by (simp add: messageSub_def fetch_filter_def)

text \<open>
  \<open>B\<close> in the chat with \<open>A\<close>: a message from \<open>A\<close> to \<open>B\<close> and one from \<open>B\<close> to \<open>A\<close> are
  appended with their senders; the first is dropped while \<open>B\<close> is in the chat with
  \<open>C\<close>, and a group message of \<open>A\<close> is dropped in the chat with \<open>A\<close>.
\<close>

theorem live_filter_witness:
  "messageSub user_B chat_A users_AB [] (dm_A_B ''1'' ''t1'')
     = [(dm_A_B ''1'' ''t1'')\<lparr>sender := Some user_A\<rparr>]
   \<and> messageSub user_B chat_A users_AB [] (dm_B_A ''2'' ''t2'')
     = [(dm_B_A ''2'' ''t2'')\<lparr>sender := Some user_B\<rparr>]
   \<and> messageSub user_B chat_C users_AB [] (dm_A_B ''1'' ''t1'') = []
   \<and> messageSub user_B chat_A users_AB [] (gm_A_G ''3'' ''t3'') = []"
  using live_filter [where cu = user_B and ac = chat_A and users = users_AB and prev = "[]"
      and m = "dm_A_B ''1'' ''t1''"]
    live_filter [where cu = user_B and ac = chat_A and users = users_AB and prev = "[]"
      and m = "dm_B_A ''2'' ''t2''"]
    live_filter [where cu = user_B and ac = chat_C and users = users_AB and prev = "[]"
      and m = "dm_A_B ''1'' ''t1''"]
    live_filter [where cu = user_B and ac = chat_A and users = users_AB and prev = "[]"
      and m = "gm_A_G ''3'' ''t3''"]
  by (simp add: user_A_def user_B_def chat_A_def chat_C_def users_AB_def dm_A_B_def dm_B_A_def
      gm_A_G_def fetch_filter_def)

text \<open>
  The invariant of the unread tracker. Once the effect on \<^verbatim>\<open>[activeChat]\<close> has
  run for the present chat, the count of that chat is \<open>0\<close> and the subscribed
  callback was closed over that chat, so that it never writes the chat's entry; the
  other handlers do not write the map at all.
\<close>

lemma globalMessageSub_active:
  "globalMessageSub u (Some c) prev m (id_chat c) = prev (id_chat c)"
  by (simp add: globalMessageSub_def)

lemma handleLogin_keeps:
  "activeChat (fst (handleLogin ex cr s)) = activeChat s
   \<and> unreadCounts (fst (handleLogin ex cr s)) = unreadCounts s"
  by (simp add: handleLogin_def split: option.splits)

lemma sendMessage_keeps:
  "activeChat (fst (sendMessage err s)) = activeChat s
   \<and> unreadCounts (fst (sendMessage err s)) = unreadCounts s"
  by (simp add: sendMessage_def Let_def split: option.splits)

lemma fetchMessages_reply_keeps:
  "activeChat (fetchMessages_reply r s) = activeChat s
   \<and> unreadCounts (fetchMessages_reply r s) = unreadCounts s"
  by (simp add: fetchMessages_reply_def split: option.splits)

lemma step_settled:
  assumes J: "\<And>c. \<not> effect_due a \<Longrightarrow> activeChat (session a) = Some c \<Longrightarrow>
      unreadCounts (session a) (id_chat c) = Some 0
      \<and> (\<forall>cu ac. globalSub_closure a = Some (cu, ac) \<longrightarrow> ac = Some c)"
    and due: "\<not> effect_due (step a e)"
    and act: "activeChat (session (step a e)) = Some c"
  shows "unreadCounts (session (step a e)) (id_chat c) = Some 0
      \<and> (\<forall>cu ac. globalSub_closure (step a e) = Some (cu, ac) \<longrightarrow> ac = Some c)"
proof (cases e)
  case (Login ex cr)
  with J [of c] due act show ?thesis by (simp add: handleLogin_keeps)
next
  case Logout
  with act show ?thesis by (simp add: handleLogout_def)
next
  case (SetActiveChat ac)
  with due show ?thesis by simp
next
  case RunEffects
  show ?thesis
  proof (cases "effect_due a")
    case True
    with RunEffects act show ?thesis
      by (auto simp add: run_effects_def activeChat_effect_def split: option.splits)
  next
    case False
    with RunEffects act J [of c] show ?thesis
      by (auto simp add: run_effects_def split: option.splits)
  qed
next
  case (GlobalInsert m)
  show ?thesis
  proof (cases "globalSub_closure a")
    case None
    with GlobalInsert J [of c] due act show ?thesis by simp
  next
    case (Some p)
    obtain cu ac where p: "p = (cu, ac)" by (cases p)
    from GlobalInsert Some p due act have d: "\<not> effect_due a" and a: "activeChat (session a) = Some c"
      by simp_all
    from J [OF d a] Some p have ac: "ac = Some c" and z: "unreadCounts (session a) (id_chat c) = Some 0"
      by simp_all
    from GlobalInsert Some p ac z show ?thesis
      by (simp add: globalMessageSub_active)
  qed
next
  case (ChatInsert users m)
  with J [of c] due act show ?thesis by (simp split: option.splits prod.splits)
next
  case (Resume n)
  with J [of c] due act show ?thesis by (simp split: if_splits)
next
  case (Fetched reply)
  with J [of c] due act show ?thesis by (simp add: fetchMessages_reply_keeps)
next
  case (Send err)
  with J [of c] due act show ?thesis by (simp add: sendMessage_keeps)
next
  case (SetUsernameInput v)
  with J [of c] due act show ?thesis by simp
next
  case (SetNewMessage v)
  with J [of c] due act show ?thesis by simp
qed

lemma reachable_settled:
  "reachable a \<Longrightarrow> \<not> effect_due a \<Longrightarrow> activeChat (session a) = Some c \<Longrightarrow>
   unreadCounts (session a) (id_chat c) = Some 0
   \<and> (\<forall>cu ac. globalSub_closure a = Some (cu, ac) \<longrightarrow> ac = Some c)"
proof (induction arbitrary: c rule: reachable.induct)
  case (reachable_mount storedUser)
  then show ?case by (simp add: mount_def init_def)
next
  case (reachable_step a e)
  show ?case
    by (rule step_settled [OF reachable_step.IH reachable_step.prems])
qed

lemma keeps_chat_step:
  "keeps_chat e \<Longrightarrow> activeChat (session (step a e)) = activeChat (session a)
     \<and> (\<not> effect_due a \<longrightarrow> \<not> effect_due (step a e))"
  by (cases e)
    (simp_all add: handleLogin_keeps sendMessage_keeps fetchMessages_reply_keeps run_effects_def
      split: option.splits prod.splits)

lemma keeps_chat_run:
  "list_all keeps_chat es \<Longrightarrow> reachable a \<Longrightarrow> \<not> effect_due a \<Longrightarrow>
   reachable (foldl step a es) \<and> \<not> effect_due (foldl step a es)
   \<and> activeChat (session (foldl step a es)) = activeChat (session a)"
proof (induction es arbitrary: a)
  case Nil
  then show ?case by simp
next
  case (Cons e es)
  from Cons.prems have k: "keeps_chat e" and ks: "list_all keeps_chat es" by simp_all
  have r: "reachable (step a e)" using Cons.prems(2) by (rule reachable_step)
  have d: "\<not> effect_due (step a e)" using keeps_chat_step [OF k, of a] Cons.prems(3) by simp
  have c: "activeChat (session (step a e)) = activeChat (session a)"
    using keeps_chat_step [OF k, of a] by simp
  from Cons.IH [OF ks r d] c show ?case by simp
qed

lemma reachable_run: "reachable a \<Longrightarrow> reachable (foldl step a es)"
  by (induction es arbitrary: a) (simp_all add: reachable_step)

text \<open>
  C2, as stated, has the count of \<open>c\<close> at \<open>0\<close> from the instant \<open>c\<close> becomes the
  active chat, by a synchronous reset. The reset is an effect that runs after the
  render in which \<open>c\<close> is already active. \<open>B\<close> has one unread message from \<open>C\<close> and
  clicks on \<open>C\<close>: in the state this reaches the active chat is \<open>C\<close> and its count
  is \<open>1\<close>. And a message from \<open>C\<close> delivered between the click and the effect is
  counted, by the callback subscribed before the click, while \<open>C\<close> is active.
\<close>

theorem activation_not_synchronous_counterexample:
  "reachable (foldl step (mount (Some user_B))
      [RunEffects, GlobalInsert (dm_C_B ''1'' ''t1''), SetActiveChat chat_C])
   \<and> activeChat (session (foldl step (mount (Some user_B))
      [RunEffects, GlobalInsert (dm_C_B ''1'' ''t1''), SetActiveChat chat_C])) = Some chat_C
   \<and> unreadCounts (session (foldl step (mount (Some user_B))
      [RunEffects, GlobalInsert (dm_C_B ''1'' ''t1''), SetActiveChat chat_C])) (id_chat chat_C) = Some 1
   \<and> reachable (foldl step (mount (Some user_B))
      [RunEffects, SetActiveChat chat_C, GlobalInsert (dm_C_B ''1'' ''t1'')])
   \<and> activeChat (session (foldl step (mount (Some user_B))
      [RunEffects, SetActiveChat chat_C, GlobalInsert (dm_C_B ''1'' ''t1'')])) = Some chat_C
   \<and> unreadCounts (session (foldl step (mount (Some user_B))
      [RunEffects, SetActiveChat chat_C, GlobalInsert (dm_C_B ''1'' ''t1'')])) (id_chat chat_C) = Some 1"
proof -
  have r: "\<And>es. reachable (foldl step (mount (Some user_B)) es)"
    by (rule reachable_run [OF reachable_mount])
  have ev: "activeChat (session (foldl step (mount (Some user_B))
      [RunEffects, GlobalInsert (dm_C_B ''1'' ''t1''), SetActiveChat chat_C])) = Some chat_C
   \<and> unreadCounts (session (foldl step (mount (Some user_B))
      [RunEffects, GlobalInsert (dm_C_B ''1'' ''t1''), SetActiveChat chat_C])) (id_chat chat_C) = Some 1
   \<and> activeChat (session (foldl step (mount (Some user_B))
      [RunEffects, SetActiveChat chat_C, GlobalInsert (dm_C_B ''1'' ''t1'')])) = Some chat_C
   \<and> unreadCounts (session (foldl step (mount (Some user_B))
      [RunEffects, SetActiveChat chat_C, GlobalInsert (dm_C_B ''1'' ''t1'')])) (id_chat chat_C) = Some 1"
    by (simp add: mount_def init_def run_effects_def user_B_def chat_C_def dm_C_B_def
        globalMessageSub_def isRelevant_def chatId_def unread_def)
  from r ev show ?thesis by blast
qed

text \<open>
  C2, amended. From any state, once \<open>c\<close> has been made the active chat and the
  effect that follows has run, the count stored for \<open>c\<close> is \<open>0\<close>. In every reachable
  state in which that effect is not pending, the count stored for the active chat is
  \<open>0\<close>, and it is still \<open>0\<close>, with the same chat active, after any sequence of
  events other than a change of the active chat, observed messages among them.
  Between \<^verbatim>\<open>setActiveChat\<close> and the effect the old count is still stored.
\<close>

theorem active_count_zero:
  "activeChat (session (step (step a0 (SetActiveChat c)) RunEffects)) = Some c
   \<and> unreadCounts (session (step (step a0 (SetActiveChat c)) RunEffects)) (id_chat c) = Some 0
   \<and> \<not> effect_due (step (step a0 (SetActiveChat c)) RunEffects)
   \<and> (reachable a \<and> \<not> effect_due a \<and> activeChat (session a) = Some c \<longrightarrow>
        unreadCounts (session a) (id_chat c) = Some 0
        \<and> (\<forall>es. list_all keeps_chat es \<longrightarrow>
              activeChat (session (foldl step a es)) = Some c
              \<and> unreadCounts (session (foldl step a es)) (id_chat c) = Some 0))"
proof (intro conjI impI allI)
  show "activeChat (session (step (step a0 (SetActiveChat c)) RunEffects)) = Some c"
    by (simp add: run_effects_def)
  show "unreadCounts (session (step (step a0 (SetActiveChat c)) RunEffects)) (id_chat c) = Some 0"
    by (simp add: run_effects_def activeChat_effect_def)
  show "\<not> effect_due (step (step a0 (SetActiveChat c)) RunEffects)"
    by (simp add: run_effects_def)
next
  assume h: "reachable a \<and> \<not> effect_due a \<and> activeChat (session a) = Some c"
  then show "unreadCounts (session a) (id_chat c) = Some 0"
    using reachable_settled [of a c] by simp
  fix es
  assume ks: "list_all keeps_chat es"
  from keeps_chat_run [OF ks, of a] h
  have r: "reachable (foldl step a es)" and d: "\<not> effect_due (foldl step a es)"
    and c: "activeChat (session (foldl step a es)) = Some c"
    by simp_all
  from c show "activeChat (session (foldl step a es)) = Some c" .
  from reachable_settled [OF r d c]
  show "unreadCounts (session (foldl step a es)) (id_chat c) = Some 0" by simp
qed

text \<open>
  \<open>B\<close> has one unread message from \<open>C\<close>, opens the chat with \<open>C\<close>, the effect runs,
  and \<open>B\<close> then observes a message from \<open>C\<close>, types, and observes one from \<open>A\<close>:
  the count for \<open>C\<close> is \<open>0\<close> after the effect and after these events, the count for
  \<open>A\<close> is \<open>1\<close>.
\<close>

theorem active_count_zero_witness:
  "unreadCounts (session (foldl step (mount (Some user_B))
      [RunEffects, GlobalInsert (dm_C_B ''1'' ''t1''), SetActiveChat chat_C, RunEffects])) ''C'' = Some 0
   \<and> unreadCounts (session (foldl step
        (foldl step (mount (Some user_B))
           [RunEffects, GlobalInsert (dm_C_B ''1'' ''t1''), SetActiveChat chat_C, RunEffects])
        [GlobalInsert (dm_C_B ''2'' ''t2''), SetNewMessage ''x'',
         GlobalInsert (dm_A_B ''3'' ''t3'')])) ''C'' = Some 0
   \<and> unreadCounts (session (foldl step
        (foldl step (mount (Some user_B))
           [RunEffects, GlobalInsert (dm_C_B ''1'' ''t1''), SetActiveChat chat_C, RunEffects])
        [GlobalInsert (dm_C_B ''2'' ''t2''), SetNewMessage ''x'',
         GlobalInsert (dm_A_B ''3'' ''t3'')])) ''A'' = Some 1"
proof -
  let ?a = "foldl step (mount (Some user_B))
      [RunEffects, GlobalInsert (dm_C_B ''1'' ''t1''), SetActiveChat chat_C, RunEffects]"
  let ?es = "[GlobalInsert (dm_C_B ''2'' ''t2''), SetNewMessage ''x'',
      GlobalInsert (dm_A_B ''3'' ''t3'')]"
  have r: "reachable ?a"
    by (rule reachable_run [OF reachable_mount])
  have d: "\<not> effect_due ?a" and c: "activeChat (session ?a) = Some chat_C"
    by (simp_all add: mount_def init_def run_effects_def)
  have k: "list_all keeps_chat ?es"
    by simp
  have i: "id_chat chat_C = ''C''"
    by (simp add: chat_C_def)
  from active_count_zero [where a = ?a and c = chat_C] r d c
  have z: "unreadCounts (session ?a) (id_chat chat_C) = Some 0"
    and zs: "\<forall>es. list_all keeps_chat es \<longrightarrow>
      unreadCounts (session (foldl step ?a es)) (id_chat chat_C) = Some 0"
    by blast+
  from zs k have z2: "unreadCounts (session (foldl step ?a ?es)) (id_chat chat_C) = Some 0"
    by blast
  have z3: "unreadCounts (session (foldl step ?a ?es)) ''A'' = Some 1"
    by (simp add: mount_def init_def run_effects_def user_B_def chat_C_def dm_C_B_def dm_A_B_def
        globalMessageSub_def isRelevant_def chatId_def unread_def activeChat_effect_def)
  from z z2 z3 show ?thesis
    unfolding i by (intro conjI)
qed

text \<open>
  The history query and the store. The filter that \<^verbatim>\<open>fetchMessages\<close> sends denotes
  \<open>fetch_filter\<close>; a row that \<^verbatim>\<open>sendMessage\<close> requests passes the filter of its
  conversation; the ids of a store are distinct; and the store's sort commutes with
  a selection by id.
\<close>

lemma with_sender_fields:
  "id_msg (with_sender users m) = id_msg m" "created_at (with_sender users m) = created_at m"
  by (simp_all add: with_sender_def)

lemma holds_fetchMessages:
  "holds (q_filter (fetchMessages cu ac)) m = fetch_filter cu ac m"
  by (simp add: fetchMessages_def fetch_filter_def)

lemma sent_passes_filter:
  assumes "currentUser s = Some cu" and "activeChat s = Some ac"
    and "snd (sendMessage err s) = [InsertMessage d]"
  shows "fetch_filter cu ac d"
proof -
  have "trim (newMessage s) \<noteq> []"
    using assms(3) by (auto simp add: sendMessage_def split: if_splits)
  then show ?thesis
    using assms by (cases err; cases "type_chat ac") (auto simp add: sendMessage_def fetch_filter_def)
qed

lemma store_insert_Some:
  assumes "store_insert i t d rows = Some rows'"
  shows "\<exists>r. rows' = rows @ [r] \<and> id_msg r = i \<and> created_at r = t \<and> i \<notin> set (map id_msg rows)
     \<and> sender_id r = sender_id d \<and> receiver_id r = receiver_id d \<and> group_id r = group_id d
     \<and> content r = content d"
  using assms by (auto simp add: store_insert_def split: if_splits)

lemma stored_distinct: "stored rows \<Longrightarrow> distinct (map id_msg rows)"
proof (induction rule: stored.induct)
  case stored_empty
  show ?case by simp
next
  case (stored_insert rows i t d rows')
  from store_insert_Some [OF stored_insert.hyps(2)] obtain r
    where "rows' = rows @ [r]" "id_msg r = i" "i \<notin> set (map id_msg rows)" by blast
  with stored_insert.IH show ?case by simp
qed

lemma distinct_key_filter:
  assumes "distinct (map f (xs @ [x] @ ys))"
  shows "filter (\<lambda>m. f m = f x) (xs @ [x] @ ys) = [x]"
proof -
  have nx: "f x \<notin> f ` set xs" "f x \<notin> f ` set ys"
    using assms by auto
  have "\<And>m. m \<in> set xs \<Longrightarrow> f m \<noteq> f x"
    using nx(1) by (metis imageI)
  then have fx: "filter (\<lambda>m. f m = f x) xs = []"
    by (simp add: filter_empty_conv)
  have "\<And>m. m \<in> set ys \<Longrightarrow> f m \<noteq> f x"
    using nx(2) by (metis imageI)
  then have fy: "filter (\<lambda>m. f m = f x) ys = []"
    by (simp add: filter_empty_conv)
  show ?thesis by (simp add: fx fy)
qed

lemma select_by_id:
  "filter (\<lambda>m. Q (id_msg m)) (store_select stamp users rows (fetchMessages cu ac))
     = sort_key (\<lambda>m. stamp (created_at m))
         (map (with_sender users) (filter (fetch_filter cu ac) (filter (\<lambda>m. Q (id_msg m)) rows)))"
proof -
  have "filter (\<lambda>m. Q (id_msg m)) (filter (fetch_filter cu ac) rows)
      = filter (fetch_filter cu ac) (filter (\<lambda>m. Q (id_msg m)) rows)"
    by (simp add: conj_commute)
  then show ?thesis
    by (simp add: store_select_def holds_fetchMessages [abs_def] filter_sort filter_map o_def
        with_sender_fields del: filter_filter)
qed

lemma example_sends:
  "snd (sendMessage None (session_A (Some chat_B) ''first'')) = [InsertMessage sent_first]"
  "snd (sendMessage None (session_A (Some chat_B) ''second'')) = [InsertMessage sent_second]"
  by (simp_all add: sendMessage_def session_A_fields example_ids sent_first_def sent_second_def
      trim_def WhiteSpace_def)

lemma example_inserts:
  "store_insert ''1'' ''tt'' sent_first [] = Some [row_first]"
  "store_insert ''2'' ''t'' sent_second [row_first] = Some [row_first, row_second]"
  by (simp_all add: store_insert_def sent_first_def sent_second_def row_first_def row_second_def)

lemma example_stored: "stored [row_first, row_second]"
  by (rule stored_insert [OF stored_insert [OF stored_empty example_inserts(1)] example_inserts(2)])

text \<open>
  C6, as stated, has the sent messages come back in insertion order. The query asks
  for the order of \<^verbatim>\<open>created_at\<close>, which the store assigns. \<open>A\<close> sends \<open>first\<close>
  and then \<open>second\<close> to \<open>B\<close>; the store stamps the second row earlier than the first
  (stamps are compared by their length here); the history comes back as \<open>second\<close>,
  \<open>first\<close>.
\<close>

theorem insertion_order_counterexample:
  "snd (sendMessage None (session_A (Some chat_B) ''first'')) = [InsertMessage sent_first]
   \<and> store_insert ''1'' ''tt'' sent_first [] = Some [row_first]
   \<and> snd (sendMessage None (session_A (Some chat_B) ''second'')) = [InsertMessage sent_second]
   \<and> store_insert ''2'' ''t'' sent_second [row_first] = Some [row_first, row_second]
   \<and> stored [row_first, row_second]
   \<and> map content (store_select length users_AB [row_first, row_second] (fetchMessages user_A chat_B))
       = [''second'', ''first'']"
proof -
  note st = example_stored
  have sel: "map content (store_select length users_AB [row_first, row_second] (fetchMessages user_A chat_B))
       = [''second'', ''first'']"
    by (simp add: store_select_def fetchMessages_def example_ids row_first_def row_second_def
        with_sender_def)
  show ?thesis
    by (intro conjI example_sends example_inserts st sel)
qed

text \<open>
  C6, amended. The answer to the history query is exactly the rows of the store that
  pass the filter of the conversation, each as often as the store holds it and with
  its sender, in ascending order of \<^verbatim>\<open>created_at\<close>, and the client keeps it as
  it came; for a chat of type \<^verbatim>\<open>user\<close> the filter is the bidirectional pair
  predicate. A message that \<^verbatim>\<open>sendMessage\<close> inserted from a conversation is in
  every later answer for that conversation exactly once, with the content and the
  sender it was sent with. Two rows of the conversation come back in the order of
  their insertion when the later one is not stamped earlier than the first (equal
  stamps included), and in the opposite order otherwise.
\<close>

theorem history_roundtrip:
  "mset (store_select stamp users rows (fetchMessages cu ac))
     = image_mset (with_sender users) (filter_mset (fetch_filter cu ac) (mset rows))
   \<and> sorted (map (\<lambda>m. stamp (created_at m)) (store_select stamp users rows (fetchMessages cu ac)))
   \<and> messages (fetchMessages_reply (Some (store_select stamp users rows (fetchMessages cu ac))) s0)
       = store_select stamp users rows (fetchMessages cu ac)
   \<and> (type_chat ac = user \<longrightarrow>
        fetch_filter cu ac m
          = ((sender_id m = id_user cu \<and> receiver_id m = Some (id_chat ac))
           \<or> (sender_id m = id_chat ac \<and> receiver_id m = Some (id_user cu))))
   \<and> (stored rows \<and> currentUser s = Some cu \<and> activeChat s = Some ac
        \<and> snd (sendMessage None s) = [InsertMessage d]
        \<and> store_insert i t d before = Some mid \<and> rows = mid @ later \<longrightarrow>
        filter (\<lambda>m. id_msg m = i) (store_select stamp users rows (fetchMessages cu ac))
          = [with_sender users (last mid)]
        \<and> content (last mid) = content d \<and> sender_id (last mid) = id_user cu)
   \<and> (filter (\<lambda>m. id_msg m = i1 \<or> id_msg m = i2) rows = [r1, r2]
        \<and> fetch_filter cu ac r1 \<and> fetch_filter cu ac r2 \<longrightarrow>
        filter (\<lambda>m. id_msg m = i1 \<or> id_msg m = i2)
            (store_select stamp users rows (fetchMessages cu ac))
          = (if stamp (created_at r1) \<le> stamp (created_at r2)
             then [with_sender users r1, with_sender users r2]
             else [with_sender users r2, with_sender users r1]))"
proof (intro conjI impI)
  show "mset (store_select stamp users rows (fetchMessages cu ac))
     = image_mset (with_sender users) (filter_mset (fetch_filter cu ac) (mset rows))"
    by (simp add: store_select_def holds_fetchMessages [abs_def])
  show "sorted (map (\<lambda>m. stamp (created_at m)) (store_select stamp users rows (fetchMessages cu ac)))"
    by (simp add: store_select_def)
  show "messages (fetchMessages_reply (Some (store_select stamp users rows (fetchMessages cu ac))) s0)
       = store_select stamp users rows (fetchMessages cu ac)"
    by (simp add: fetchMessages_reply_def)
next
  assume "type_chat ac = user"
  then show "fetch_filter cu ac m
          = ((sender_id m = id_user cu \<and> receiver_id m = Some (id_chat ac))
           \<or> (sender_id m = id_chat ac \<and> receiver_id m = Some (id_user cu)))"
    by (simp add: fetch_filter_def)
next
  assume h: "stored rows \<and> currentUser s = Some cu \<and> activeChat s = Some ac
        \<and> snd (sendMessage None s) = [InsertMessage d]
        \<and> store_insert i t d before = Some mid \<and> rows = mid @ later"
  from h store_insert_Some [of i t d before mid] obtain r
    where mid: "mid = before @ [r]" and ri: "id_msg r = i"
      and rf: "sender_id r = sender_id d" "receiver_id r = receiver_id d"
        "group_id r = group_id d" "content r = content d"
    by blast
  have pd: "fetch_filter cu ac d"
    using h sent_passes_filter [of s cu ac None d] by blast
  then have pr: "fetch_filter cu ac r"
    using rf by (simp add: fetch_filter_def)
  have rows: "rows = before @ [r] @ later"
    using h mid by simp
  from h have "stored rows" by blast
  then have "distinct (map id_msg rows)"
    by (rule stored_distinct)
  then have "filter (\<lambda>m. id_msg m = id_msg r) (before @ [r] @ later) = [r]"
    unfolding rows by (rule distinct_key_filter)
  then have one: "filter (\<lambda>m. id_msg m = i) rows = [r]"
    by (simp only: rows ri)
  have l: "last mid = r"
    by (simp add: mid)
  show "filter (\<lambda>m. id_msg m = i) (store_select stamp users rows (fetchMessages cu ac))
          = [with_sender users (last mid)]"
    using select_by_id [of "\<lambda>j. j = i" stamp users rows cu ac] pr by (simp add: one l)
  show "content (last mid) = content d"
    by (simp add: l rf)
  have "sender_id d = id_user cu"
    using h by (auto simp add: sendMessage_def split: if_splits option.splits)
  then show "sender_id (last mid) = id_user cu"
    by (simp add: l rf)
next
  assume h: "filter (\<lambda>m. id_msg m = i1 \<or> id_msg m = i2) rows = [r1, r2]
        \<and> fetch_filter cu ac r1 \<and> fetch_filter cu ac r2"
  show "filter (\<lambda>m. id_msg m = i1 \<or> id_msg m = i2)
            (store_select stamp users rows (fetchMessages cu ac))
          = (if stamp (created_at r1) \<le> stamp (created_at r2)
             then [with_sender users r1, with_sender users r2]
             else [with_sender users r2, with_sender users r1])"
    using select_by_id [of "\<lambda>j. j = i1 \<or> j = i2" stamp users rows cu ac] h
    by (simp add: with_sender_fields)
qed

text \<open>
  The store of the two rows above: the first sent row is in the answer once; the
  two rows come back second before first, the second being stamped earlier; the
  answer is sorted by stamp.
\<close>

theorem history_roundtrip_witness:
  "filter (\<lambda>m. id_msg m = ''1'')
      (store_select length users_AB [row_first, row_second] (fetchMessages user_A chat_B))
     = [with_sender users_AB row_first]
   \<and> filter (\<lambda>m. id_msg m = ''1'' \<or> id_msg m = ''2'')
      (store_select length users_AB [row_first, row_second] (fetchMessages user_A chat_B))
     = [with_sender users_AB row_second, with_sender users_AB row_first]
   \<and> sorted (map (\<lambda>m. length (created_at m))
      (store_select length users_AB [row_first, row_second] (fetchMessages user_A chat_B)))"
proof -
  let ?s = "session_A (Some chat_B) ''first''"
  let ?reply = "store_select length users_AB [row_first, row_second] (fetchMessages user_A chat_B)"
  note t = history_roundtrip [where stamp = length and users = users_AB
      and rows = "[row_first, row_second]" and cu = user_A and ac = chat_B and s = ?s
      and d = sent_first and i = "''1''" and t = "''tt''" and before = "[]"
      and mid = "[row_first]" and later = "[row_second]"
      and ?i1.0 = "''1''" and ?i2.0 = "''2''" and ?r1.0 = row_first and ?r2.0 = row_second]
  have cur: "currentUser ?s = Some user_A" "activeChat ?s = Some chat_B"
    by (simp_all add: session_A_fields)
  have rows: "[row_first, row_second] = [row_first] @ [row_second]"
    by simp
  have pass: "fetch_filter user_A chat_B row_first" "fetch_filter user_A chat_B row_second"
    by (simp_all add: fetch_filter_def example_ids row_first_def row_second_def)
  have pair: "filter (\<lambda>m. id_msg m = ''1'' \<or> id_msg m = ''2'') [row_first, row_second]
      = [row_first, row_second]"
    by (simp add: row_first_def row_second_def)
  have later: "\<not> length (created_at row_first) \<le> length (created_at row_second)"
    by (simp add: row_first_def row_second_def)
  from t example_stored cur example_sends(1) example_inserts(1) rows
  have once: "filter (\<lambda>m. id_msg m = ''1'') ?reply = [with_sender users_AB (last [row_first])]"
    by blast
  from t pair pass
  have "filter (\<lambda>m. id_msg m = ''1'' \<or> id_msg m = ''2'') ?reply
      = (if length (created_at row_first) \<le> length (created_at row_second)
         then [with_sender users_AB row_first, with_sender users_AB row_second]
         else [with_sender users_AB row_second, with_sender users_AB row_first])"
    by blast
  with later have order: "filter (\<lambda>m. id_msg m = ''1'' \<or> id_msg m = ''2'') ?reply
      = [with_sender users_AB row_second, with_sender users_AB row_first]"
    by simp
  from t have srt: "sorted (map (\<lambda>m. length (created_at m)) ?reply)"
    by blast
  from once have once': "filter (\<lambda>m. id_msg m = ''1'') ?reply = [with_sender users_AB row_first]"
    by simp
  show ?thesis
    by (intro conjI once' order srt)
qed

end
